theory Spec2Isabelle
  imports Main "HOL-Library.AList"
begin

section \<open>Data model\<close>

text \<open>
  The program is one Python class, \<open>Sudoku\<close> (src/main.py). Its grids are lists of
  lists of integers, which Python passes and stores by reference: the constructor keeps
  the caller's list object (\<open>self.__grid = grid\<close>), the backtracking search hands the
  same object down its recursion and records a candidate object as the solution. Grid
  objects therefore live in an explicit store. The caller's grid object has the
  reference \<open>Given\<close>; the field \<open>__grid\<close> is assigned once, in the constructor, and
  always holds this reference, so the model reads \<open>self.__grid\<close> as the object at
  \<open>Given\<close>. Every other grid object is made by \<open>copy.deepcopy\<close>, which appends a new
  object \<open>Obj n\<close>. A grid object is kept together with its rows: only deep copies are
  made, so two grid objects never share a row.

  The two dictionaries of the atom registry are private to the object and are only
  touched by \<open>__atom\<close>; they are modelled by value, as association lists in insertion
  order (the order of a Python dictionary), updated with \<open>AList.update\<close>.

  Wall-clock timing (\<open>timer\<close>, \<open>__t\<close>) is instrumentation only and is left out.
\<close>

datatype error = ValueError | IndexError | KeyError

type_synonym grid = "int list list"
type_synonym triple = "nat \<times> nat \<times> int"

datatype ref = Given | Obj nat

record store =
  given :: grid
  objs :: "grid list"

record sudoku =
  atom_id :: "(triple \<times> int) list"
  id_atom :: "(int \<times> triple) list"
  solution :: "ref option"
  solution_found :: bool

definition GRID_LEN :: nat where "GRID_LEN = 9"
definition SUBGRID_LEN :: nat where "SUBGRID_LEN = 3"
definition MAX_NUMBER :: nat where "MAX_NUMBER = 9"

fun load :: "store \<Rightarrow> ref \<Rightarrow> grid" where
  "load h Given = given h"
| "load h (Obj n) = objs h ! n"

fun store_upd :: "store \<Rightarrow> ref \<Rightarrow> grid \<Rightarrow> store" where
  "store_upd h Given g = h\<lparr>given := g\<rparr>"
| "store_upd h (Obj n) g = h\<lparr>objs := (objs h)[n := g]\<rparr>"

text \<open>\<open>copy.deepcopy(grid)\<close>: a new object with the same contents.\<close>

definition deepcopy :: "store \<Rightarrow> ref \<Rightarrow> store \<times> ref" where
  "deepcopy h a = (h\<lparr>objs := objs h @ [load h a]\<rparr>, Obj (length (objs h)))"

text \<open>\<open>g[row][col]\<close> and \<open>g[row][col] = v\<close>, with Python's IndexError out of range
  (the indices of this program are never negative).\<close>

definition grid_get :: "grid \<Rightarrow> nat \<Rightarrow> nat \<Rightarrow> error + int" where
  "grid_get g row col =
     (if row < length g \<and> col < length (g ! row) then Inr (g ! row ! col)
      else Inl IndexError)"

definition grid_set :: "grid \<Rightarrow> nat \<Rightarrow> nat \<Rightarrow> int \<Rightarrow> error + grid" where
  "grid_set g row col v =
     (if row < length g \<and> col < length (g ! row)
      then Inr (g[row := (g ! row)[col := v]])
      else Inl IndexError)"

text \<open>The assignment \<open>obj[row][col] = v\<close> on the grid object at a reference.\<close>

definition write_cell :: "store \<Rightarrow> ref \<Rightarrow> nat \<Rightarrow> nat \<Rightarrow> int \<Rightarrow> error + store" where
  "write_cell h a row col v =
     (case grid_set (load h a) row col v of
        Inl e \<Rightarrow> Inl e
      | Inr g \<Rightarrow> Inr (store_upd h a g))"

text \<open>Reading a list of cells in order; the first cell out of range raises.\<close>

fun read_cells :: "grid \<Rightarrow> (nat \<times> nat) list \<Rightarrow> error + int list" where
  "read_cells g [] = Inr []"
| "read_cells g ((row, col) # cs) =
     (case grid_get g row col of
        Inl e \<Rightarrow> Inl e
      | Inr v \<Rightarrow> (case read_cells g cs of Inl e \<Rightarrow> Inl e | Inr vs \<Rightarrow> Inr (v # vs)))"

section \<open>Constructor\<close>

text \<open>\<open>__init__\<close>: the two dimension checks, each raising
  \<open>ValueError('Wrong grid size')\<close>, then the fields. The argument is the caller's grid
  object, the one at \<open>Given\<close>.\<close>

definition init :: "store \<Rightarrow> error + sudoku" where
  "init h =
     (if length (given h) \<noteq> GRID_LEN then Inl ValueError
      else if list_ex (\<lambda>row. length row \<noteq> GRID_LEN) (given h) then Inl ValueError
      else Inr \<lparr>atom_id = [], id_atom = [], solution = None, solution_found = False\<rparr>)"

section \<open>Atom registry\<close>

text \<open>\<open>__atom\<close>: look the triple up; when it is absent, store it under the identifier
  \<open>len(self.__atom_id) + 1\<close> in both dictionaries (the reverse one first, as the source
  does) and return the identifier just stored.\<close>

definition atom :: "sudoku \<Rightarrow> nat \<Rightarrow> nat \<Rightarrow> int \<Rightarrow> int \<times> sudoku" where
  "atom s row col number =
     (case map_of (atom_id s) (row, col, number) of
        Some i \<Rightarrow> (i, s)
      | None \<Rightarrow>
          (let s1 = s\<lparr>id_atom := AList.update (int (length (atom_id s)) + 1)
                                    (row, col, number) (id_atom s)\<rparr>;
               s2 = s1\<lparr>atom_id := AList.update (row, col, number)
                                     (int (length (atom_id s1)) + 1) (atom_id s1)\<rparr>
           in (int (length (atom_id s1)) + 1, s2)))"

text \<open>\<open>__literal\<close>: \<open>int(("-" if negation else "") + str(atom))\<close>. Identifiers are
  positive (lemma \<open>atom_positive\<close> below), so prefixing the minus sign is arithmetic
  negation.\<close>

definition literal :: "sudoku \<Rightarrow> nat \<Rightarrow> nat \<Rightarrow> int \<Rightarrow> bool \<Rightarrow> int \<times> sudoku" where
  "literal s x y number negation =
     (let (a, s') = atom s x y number in ((if negation then - a else a), s'))"

text \<open>A run of \<open>__atom\<close> calls, one per triple of the list, in order; the identifiers
  returned are dropped. Used to speak about "the triples registered before".\<close>

fun atoms :: "sudoku \<Rightarrow> triple list \<Rightarrow> sudoku" where
  "atoms s [] = s"
| "atoms s ((row, col, number) # ts) = atoms (snd (atom s row col number)) ts"

text \<open>The registry after the distinct triples \<open>ts\<close> were met in this order: the i-th
  triple has identifier i + 1, in both directions.\<close>

definition ids :: "nat \<Rightarrow> int list" where
  "ids n = map (\<lambda>i. int i + 1) [0..<n]"

definition registry :: "sudoku \<Rightarrow> triple list \<Rightarrow> bool" where
  "registry s ts \<longleftrightarrow>
     distinct ts \<and> atom_id s = zip ts (ids (length ts)) \<and> id_atom s = zip (ids (length ts)) ts"

text \<open>The triples a registry holds after meeting the triples \<open>us\<close>, starting from
  \<open>ts\<close>: each new triple goes to the end.\<close>

fun register :: "triple list \<Rightarrow> triple list \<Rightarrow> triple list" where
  "register ts [] = ts"
| "register ts (u # us) = register (if u \<in> set ts then ts else ts @ [u]) us"

section \<open>Constraint checker\<close>

text \<open>The counting loop that \<open>__check_constraints\<close> runs on each unit: the set
  \<open>numbers\<close> and the counter \<open>numbers_count\<close> over the non-zero entries, and the test
  \<open>numbers_count != len(numbers)\<close> that makes the function return False.\<close>

definition count_unit :: "int list \<Rightarrow> int set \<times> nat" where
  "count_unit entries =
     fold (\<lambda>entry (numbers, numbers_count).
             if entry \<noteq> 0 then (insert entry numbers, numbers_count + 1)
             else (numbers, numbers_count))
          entries ({}, 0)"

definition unit_ok :: "int list \<Rightarrow> bool" where
  "unit_ok entries = (case count_unit entries of (numbers, numbers_count) \<Rightarrow>
     numbers_count = card numbers)"

text \<open>The units in the order the source visits them. A row is the row list itself;
  a column reads \<open>row[col]\<close> in every row of the grid; a box reads \<open>grid[row][col]\<close>.\<close>

definition column_cells :: "grid \<Rightarrow> (nat \<times> nat) list list" where
  "column_cells g = [[(row, col). row \<leftarrow> [0..<length g]]. col \<leftarrow> [0..<GRID_LEN]]"

definition box_starts :: "nat list" where
  \<comment> \<open>\<open>range(0, GRID_LEN, SUBGRID_LEN)\<close>\<close>
  "box_starts = map (\<lambda>i. i * SUBGRID_LEN) [0..<GRID_LEN div SUBGRID_LEN]"

definition box_cells :: "(nat \<times> nat) list list" where
  "box_cells =
     [[(row, col). row \<leftarrow> [rowS..<rowS + SUBGRID_LEN], col \<leftarrow> [colS..<colS + SUBGRID_LEN]].
        rowS \<leftarrow> box_starts, colS \<leftarrow> box_starts]"

fun check_units :: "grid \<Rightarrow> (nat \<times> nat) list list \<Rightarrow> error + bool" where
  "check_units g [] = Inr True"
| "check_units g (u # us) =
     (case read_cells g u of
        Inl e \<Rightarrow> Inl e
      | Inr entries \<Rightarrow> if \<not> unit_ok entries then Inr False else check_units g us)"

definition check_constraints :: "grid \<Rightarrow> error + bool" where
  "check_constraints g =
     (if \<not> list_all unit_ok g then Inr False
      else case check_units g (column_cells g) of
             Inl e \<Rightarrow> Inl e
           | Inr ok \<Rightarrow> if \<not> ok then Inr False else check_units g box_cells)"

section \<open>Backtracking search\<close>

text \<open>\<open>__csp_search(grid, row, col)\<close>. The object state (\<open>__solution\<close>,
  \<open>__solution_found\<close>) and the store are threaded through the calls. \<open>csp_numbers\<close> is
  the loop \<open>for number in range(1, MAX_NUMBER + 1)\<close> over the numbers still to try: it
  does not leave when a solution is found, each later iteration still copies the grid and
  calls \<open>__csp_search\<close>, which returns at once.\<close>

function csp_search :: "store \<times> sudoku \<Rightarrow> ref \<Rightarrow> nat \<Rightarrow> nat \<Rightarrow> error + store \<times> sudoku"
  and csp_numbers :: "store \<times> sudoku \<Rightarrow> ref \<Rightarrow> nat \<Rightarrow> nat \<Rightarrow> int list \<Rightarrow> error + store \<times> sudoku"
where
  "csp_search (h, s) g row col =
     (if solution_found s then Inr (h, s)
      else case check_constraints (load h g) of
        Inl e \<Rightarrow> Inl e
      | Inr ok \<Rightarrow>
          if \<not> ok then Inr (h, s)
          else if row = GRID_LEN
            then Inr (h, s\<lparr>solution_found := True, solution := Some g\<rparr>)
          else case grid_get (given h) row col of
            Inl e \<Rightarrow> Inl e
          | Inr v \<Rightarrow>
              if v \<noteq> 0
              then (if col = GRID_LEN - 1 then csp_search (h, s) g (row + 1) 0
                    else csp_search (h, s) g row (col + 1))
              else csp_numbers (h, s) g row col [1..int MAX_NUMBER])"
| "csp_numbers (h, s) g row col [] = Inr (h, s)"
| "csp_numbers (h, s) g row col (number # numbers) =
     (case deepcopy h g of (h1, candidate) \<Rightarrow>
        (case write_cell h1 candidate row col number of
           Inl e \<Rightarrow> Inl e
         | Inr h2 \<Rightarrow>
             (case (if col = GRID_LEN - 1 then csp_search (h2, s) candidate (row + 1) 0
                    else csp_search (h2, s) candidate row (col + 1)) of
                Inl e \<Rightarrow> Inl e
              | Inr hs \<Rightarrow> csp_numbers hs g row col numbers)))"
  by pat_completeness auto

text \<open>Termination. The search only reads the given grid, it never writes it; so the
  number of cells of the given grid that lie ahead of the cursor decreases.\<close>

lemma deepcopy_given: "deepcopy h g = (h1, c) \<Longrightarrow> given h1 = given h \<and> c = Obj (length (objs h))"
  by (auto simp: deepcopy_def)

lemma write_cell_Obj_given: "write_cell h (Obj n) row col v = Inr h' \<Longrightarrow> given h' = given h"
  by (auto simp: write_cell_def split: sum.splits)

lemma csp_dom_given:
  "csp_search_csp_numbers_dom (Inl (hs, g, row, col)) \<Longrightarrow>
     csp_search hs g row col = Inr hs' \<Longrightarrow> given (fst hs') = given (fst hs)"
  "csp_search_csp_numbers_dom (Inr (hs, g, row, col, numbers)) \<Longrightarrow>
     csp_numbers hs g row col numbers = Inr hs' \<Longrightarrow> given (fst hs') = given (fst hs)"
proof (induction hs g row col and hs g row col numbers arbitrary: hs' and hs' rule: csp_search_csp_numbers.pinduct)
  case (1 h s g row col)
  note ps = csp_search.psimps[OF "1.hyps"(1)]
  note pr = "1.prems"[unfolded ps]
  show ?case
  proof (cases "solution_found s")
    case True
    with "1.prems" show ?thesis by (simp add: ps)
  next
    case nf: False
    show ?thesis
    proof (cases "check_constraints (load h g)")
      case (Inl e)
      with "1.prems" nf show ?thesis by (simp add: ps)
    next
      case (Inr ok)
      show ?thesis
      proof (cases "ok \<and> row \<noteq> GRID_LEN")
        case False
        with "1.prems" nf Inr show ?thesis by (auto simp: ps split: if_splits)
      next
        case True
        show ?thesis
        proof (cases "grid_get (given h) row col")
          case (Inl e)
          with "1.prems" nf Inr True show ?thesis by (simp add: ps)
        next
          case v: (Inr v)
          consider "v \<noteq> 0" "col = GRID_LEN - 1" | "v \<noteq> 0" "col \<noteq> GRID_LEN - 1" | "v = 0"
            by blast
          then show ?thesis
          proof cases
            case 1
            with pr nf Inr True v have "csp_search (h, s) g (row + 1) 0 = Inr hs'"
              by simp
            from "1.IH"(1)[OF nf Inr _ _ v 1 this] True show ?thesis by simp
          next
            case 2
            with pr nf Inr True v have "csp_search (h, s) g row (col + 1) = Inr hs'"
              by simp
            from "1.IH"(2)[OF nf Inr _ _ v 2 this] True show ?thesis by simp
          next
            case 3
            with pr nf Inr True v have "csp_numbers (h, s) g row col [1..int MAX_NUMBER] = Inr hs'"
              by simp
            from "1.IH"(3)[OF nf Inr _ _ v _ this] True 3 show ?thesis by simp
          qed
        qed
      qed
    qed
  qed
next
  case (2 h s g row col)
  then show ?case by (simp add: csp_numbers.psimps)
next
  case (3 h s g row col number numbers)
  note pr = "3.prems"[unfolded csp_numbers.psimps(2)[OF "3.hyps"(1)]]
  obtain h1 c where dc: "deepcopy h g = (h1, c)" by (cases "deepcopy h g")
  from deepcopy_given[OF dc] have g1: "given h1 = given h" and c: "c = Obj (length (objs h))" by simp_all
  from pr dc obtain h2 where w: "write_cell h1 c row col number = Inr h2"
    by (auto split: sum.splits)
  from w c have g2: "given h2 = given h1" by (auto dest: write_cell_Obj_given)
  show ?case
  proof (cases "col = GRID_LEN - 1")
    case True
    from pr dc w True obtain hs1 where
      r: "csp_search (h2, s) c (row + 1) 0 = Inr hs1" and
      n: "csp_numbers hs1 g row col numbers = Inr hs'"
      by (auto split: sum.splits)
    from "3.IH"(1)[OF dc[symmetric] w True r] have "given (fst hs1) = given h2" by simp
    moreover from "3.IH"(3)[OF dc[symmetric] w _ n] True r have "given (fst hs') = given (fst hs1)" by simp
    ultimately show ?thesis using g1 g2 by simp
  next
    case False
    from pr dc w False obtain hs1 where
      r: "csp_search (h2, s) c row (col + 1) = Inr hs1" and
      n: "csp_numbers hs1 g row col numbers = Inr hs'"
      by (auto split: sum.splits)
    from "3.IH"(2)[OF dc[symmetric] w False r] have "given (fst hs1) = given h2" by simp
    moreover from "3.IH"(3)[OF dc[symmetric] w _ n] False r have "given (fst hs') = given (fst hs1)" by simp
    ultimately show ?thesis using g1 g2 by simp
  qed
qed


definition next_cell :: "nat \<Rightarrow> nat \<Rightarrow> nat \<times> nat" where
  "next_cell row col = (if col = GRID_LEN - 1 then (row + 1, 0) else (row, col + 1))"

definition cells_left :: "grid \<Rightarrow> nat \<times> nat \<Rightarrow> nat \<times> nat" where
  "cells_left G p = (case p of (row, col) \<Rightarrow>
     (length G - row,
      if col \<le> GRID_LEN - 1 then GRID_LEN - 1 - col else length (G ! row) - col))"

lemma cells_left_next:
  "grid_get G row col = Inr v \<Longrightarrow>
   (cells_left G (next_cell row col), cells_left G (row, col)) \<in> less_than <*lex*> less_than"
  by (auto simp: cells_left_def next_cell_def grid_get_def GRID_LEN_def split: if_splits)

termination csp_search
proof (relation "inv_image ((less_than <*lex*> less_than) <*lex*> less_than <*lex*> less_than)
    (\<lambda>x. case x of
        Inl ((h, s), g, row, col) \<Rightarrow> (cells_left (given h) (row, col), 0::nat, 0::nat)
      | Inr ((h, s), g, row, col, numbers) \<Rightarrow>
          (cells_left (given h) (next_cell row col), 1, length numbers))", goal_cases)
  case 1
  show ?case by (intro wf_inv_image wf_lex_prod wf_less_than)
next
  case (2 h s g row col ok v)
  from cells_left_next[OF 2(5)] 2(7) show ?case by (simp add: next_cell_def)
next
  case (3 h s g row col ok v)
  from cells_left_next[OF 3(5)] 3(7) show ?case by (simp add: next_cell_def)
next
  case (4 h s g row col ok v)
  from cells_left_next[OF 4(5)] show ?case by simp
next
  case (5 h s g row col number numbers h1 c h2)
  from deepcopy_given[OF 5(1)[symmetric]] 5(2) have "given h2 = given h"
    by (auto dest: write_cell_Obj_given)
  with 5(3) show ?case by (simp add: next_cell_def)
next
  case (6 h s g row col number numbers h1 c h2)
  from deepcopy_given[OF 6(1)[symmetric]] 6(2) have "given h2 = given h"
    by (auto dest: write_cell_Obj_given)
  with 6(3) show ?case by (simp add: next_cell_def)
next
  case (7 h s g row col number numbers h1 c h2 hs)
  from deepcopy_given[OF 7(1)[symmetric]] 7(2) have g2: "given h2 = given h"
    by (auto dest: write_cell_Obj_given)
  have "given (fst hs) = given h2"
  proof (cases "col = GRID_LEN - 1")
    case True
    with 7(3) csp_dom_given(1)[OF 7(5)[OF True], of hs] show ?thesis by simp
  next
    case False
    with 7(3) csp_dom_given(1)[OF 7(4)[OF False], of hs] show ?thesis by simp
  qed
  with g2 show ?case by (cases hs) simp
qed

text \<open>\<open>solve_as_csp\<close> returns the reference held in \<open>__solution\<close> (or None).\<close>

definition solve_as_csp :: "store \<times> sudoku \<Rightarrow> error + ref option \<times> store \<times> sudoku" where
  "solve_as_csp hs = (case hs of (h, s) \<Rightarrow>
     (case csp_search (h, s\<lparr>solution := None, solution_found := False\<rparr>) Given 0 0 of
        Inl e \<Rightarrow> Inl e
      | Inr (h', s') \<Rightarrow> Inr (solution s', h', s')))"

section \<open>SAT encoding and decoding\<close>

text \<open>Every clause of \<open>solve_as_sat\<close> is a list of \<open>__literal\<close> calls, evaluated from
  left to right on the registry. A call is written down by its arguments
  \<open>(x, y, number, negation)\<close>; \<open>literals\<close> evaluates the calls of one clause and
  \<open>add_clauses\<close> those of a sequence of \<open>solver.add_clause\<close> statements, threading the
  object state.\<close>

type_synonym lit_call = "nat \<times> nat \<times> int \<times> bool"

fun literals :: "sudoku \<Rightarrow> lit_call list \<Rightarrow> int list \<times> sudoku" where
  "literals s [] = ([], s)"
| "literals s ((x, y, number, negation) # ls) =
     (case literal s x y number negation of (l, s1) \<Rightarrow>
        (case literals s1 ls of (rest, s2) \<Rightarrow> (l # rest, s2)))"

fun add_clauses :: "sudoku \<Rightarrow> lit_call list list \<Rightarrow> int list list \<times> sudoku" where
  "add_clauses s [] = ([], s)"
| "add_clauses s (c # cs) =
     (case literals s c of (cl, s1) \<Rightarrow>
        (case add_clauses s1 cs of (rest, s2) \<Rightarrow> (cl # rest, s2)))"

text \<open>The five loop nests of \<open>solve_as_sat\<close>, each as the list of its clauses in loop
  order. The first one reads \<open>self.__grid[row][col]\<close> for every cell, blank or not;
  \<open>vs\<close> are the entries read, in row-major order.\<close>

definition all_cells :: "(nat \<times> nat) list" where
  "all_cells = [(row, col). row \<leftarrow> [0..<GRID_LEN], col \<leftarrow> [0..<GRID_LEN]]"

definition numbers :: "int list" where
  \<comment> \<open>\<open>range(1, MAX_NUMBER + 1)\<close>\<close>
  "numbers = [1..int MAX_NUMBER]"

definition given_calls :: "int list \<Rightarrow> lit_call list list" where
  "given_calls vs = map (\<lambda>((row, col), v). [(row, col, v, False)]) (zip all_cells vs)"

definition cell_calls :: "lit_call list list" where
  "cell_calls =
     [[(row, col, number, False). number \<leftarrow> numbers].
        row \<leftarrow> [0..<GRID_LEN], col \<leftarrow> [0..<GRID_LEN]]"

definition row_calls :: "lit_call list list" where
  "row_calls =
     [[(row, colA, number, True), (row, colB, number, True)].
        row \<leftarrow> [0..<GRID_LEN], colA \<leftarrow> [0..<GRID_LEN], colB \<leftarrow> [colA + 1..<GRID_LEN],
        number \<leftarrow> numbers]"

definition col_calls :: "lit_call list list" where
  "col_calls =
     [[(rowA, col, number, True), (rowB, col, number, True)].
        col \<leftarrow> [0..<GRID_LEN], rowA \<leftarrow> [0..<GRID_LEN], rowB \<leftarrow> [rowA + 1..<GRID_LEN],
        number \<leftarrow> numbers]"

definition box_calls :: "lit_call list list" where
  "box_calls =
     [[(rowA, colA, number, True), (rowB, colB, number, True)].
        rowS \<leftarrow> box_starts, colS \<leftarrow> box_starts,
        rowA \<leftarrow> [rowS..<rowS + SUBGRID_LEN], colA \<leftarrow> [colS..<colS + SUBGRID_LEN],
        rowB \<leftarrow> [rowS..<rowS + SUBGRID_LEN], colB \<leftarrow> [colS..<colS + SUBGRID_LEN],
        rowB > rowA \<or> (rowB = rowA \<and> colB > colA),
        number \<leftarrow> numbers]"

text \<open>The formula handed to the solver, and the object state after building it. The
  only failure is an IndexError of the first loop nest.\<close>

definition encode :: "store \<Rightarrow> sudoku \<Rightarrow> error + int list list \<times> sudoku" where
  "encode h s =
     (case read_cells (given h) all_cells of
        Inl e \<Rightarrow> Inl e
      | Inr vs \<Rightarrow>
          Inr (add_clauses s (given_calls vs @ cell_calls @ row_calls @ col_calls @ box_calls)))"

text \<open>The loop \<open>for value in model\<close> on the solution object at reference \<open>a\<close>.\<close>

fun decode :: "int list \<Rightarrow> sudoku \<Rightarrow> ref \<Rightarrow> store \<Rightarrow> error + store" where
  "decode [] s a h = Inr h"
| "decode (v # model) s a h =
     (if v > 0
      then (case map_of (id_atom s) v of
              None \<Rightarrow> Inl KeyError
            | Some (row, col, number) \<Rightarrow>
                (case write_cell h a row col number of
                   Inl e \<Rightarrow> Inl e
                 | Inr h' \<Rightarrow> decode model s a h'))
      else decode model s a h)"

text \<open>\<open>solve_as_sat\<close>. The SAT solver (PySAT's Glucose3) is not part of the program:
  it is the parameter \<open>oracle\<close>, from the clauses added to None (\<open>solver.solve()\<close> is
  false) or to the model (\<open>solver.get_model()\<close>).\<close>

definition solve_as_sat ::
  "(int list list \<Rightarrow> int list option) \<Rightarrow> store \<times> sudoku \<Rightarrow> error + ref option \<times> store \<times> sudoku" where
  "solve_as_sat oracle hs = (case hs of (h, s) \<Rightarrow>
     (case encode h (s\<lparr>solution := None, solution_found := False\<rparr>) of
        Inl e \<Rightarrow> Inl e
      | Inr (clauses, s1) \<Rightarrow>
          (case oracle clauses of
             None \<Rightarrow> Inr (None, h, s1)
           | Some model \<Rightarrow>
               (case deepcopy h Given of (h1, a) \<Rightarrow>
                  (case decode model (s1\<lparr>solution_found := True, solution := Some a\<rparr>) a h1 of
                     Inl e \<Rightarrow> Inl e
                   | Inr h2 \<Rightarrow>
                       Inr (Some a, h2, s1\<lparr>solution_found := True, solution := Some a\<rparr>))))))"

section \<open>Notions used to state the properties\<close>

text \<open>The entry of a grid at a cell, the well-dimensioned grids, and the 27 units as
  lists of cells. \<open>is_consistent\<close> follows the words of the specification: in every
  row, column and box the non-zero entries are pairwise distinct.\<close>

definition cell :: "grid \<Rightarrow> nat \<times> nat \<Rightarrow> int" where
  "cell g p = g ! fst p ! snd p"







text \<open>The entries of a grid in row-major order, and the completions of a given grid:
  9x9 grids of digits 1..9 that keep every non-zero given entry and have pairwise
  distinct entries in every unit.\<close>

definition entries :: "grid \<Rightarrow> int list" where
  "entries g = map (cell g) all_cells"









definition ext :: "store \<Rightarrow> store \<Rightarrow> bool" where
  "ext h h' \<longleftrightarrow> given h' = given h \<and> (\<exists>zs. objs h' = objs h @ zs)"

definition cells_from :: "nat \<Rightarrow> nat \<Rightarrow> (nat \<times> nat) list" where
  "cells_from row col = drop (GRID_LEN * row + col) all_cells"








section \<open>The atom registry\<close>

lemma update_zip_fresh:
  "length ks = length vs \<Longrightarrow> k \<notin> set ks \<Longrightarrow> AList.update k v (zip ks vs) = zip (ks @ [k]) (vs @ [v])"
  by (induction ks vs rule: list_induct2) auto

lemma ids_Suc: "ids (Suc n) = ids n @ [int n + 1]"
  by (simp add: ids_def)

lemma length_ids [simp]: "length (ids n) = n"
  by (simp add: ids_def)

lemma nth_ids [simp]: "i < n \<Longrightarrow> ids n ! i = int i + 1"
  by (simp add: ids_def)

lemma set_ids: "set (ids n) = {i. 1 \<le> i \<and> i \<le> int n}"
  apply (auto simp: ids_def image_iff)
  subgoal for i by (rule bexI[of _ "nat (i - 1)"]) auto
  done

lemma distinct_ids: "distinct (ids n)"
  by (simp add: ids_def distinct_map inj_on_def)

lemma atom_new:
  assumes "registry s ts" "(row, col, number) \<notin> set ts"
  shows "fst (atom s row col number) = int (length ts) + 1"
    and "registry (snd (atom s row col number)) (ts @ [(row, col, number)])"
proof -
  from assms have none: "map_of (zip ts (ids (length ts))) (row, col, number) = None"
    by (simp add: registry_def map_of_zip_is_None)
  have fresh: "int (length ts) + 1 \<notin> set (ids (length ts))"
    by (simp add: set_ids)
  from assms have a: "atom_id s = zip ts (ids (length ts))" and b: "id_atom s = zip (ids (length ts)) ts"
    and d: "distinct ts" by (simp_all add: registry_def)
  show "fst (atom s row col number) = int (length ts) + 1"
    by (simp add: atom_def Let_def a none)
  show "registry (snd (atom s row col number)) (ts @ [(row, col, number)])"
    using assms(2) fresh d
    by (simp add: atom_def registry_def Let_def update_zip_fresh ids_Suc a b none)
qed

lemma atom_old:
  assumes "registry s ts" "i < length ts" "ts ! i = (row, col, number)"
  shows "atom s row col number = (int i + 1, s)"
proof -
  from assms have a: "atom_id s = zip ts (ids (length ts))" and d: "distinct ts"
    by (simp_all add: registry_def)
  from assms(2) d have "map_of (zip ts (ids (length ts))) (ts ! i) = Some (ids (length ts) ! i)"
    by (intro map_of_zip_nth) simp_all
  with assms(2,3) show ?thesis by (simp add: atom_def a)
qed

lemma registry_empty: "atom_id s = [] \<Longrightarrow> id_atom s = [] \<Longrightarrow> registry s []"
  by (simp add: registry_def ids_def)

lemma atom_member:
  assumes "registry s ts" "(row, col, number) \<in> set ts"
  shows "snd (atom s row col number) = s"
proof -
  from assms(2) obtain i where "i < length ts" "ts ! i = (row, col, number)"
    by (auto simp: in_set_conv_nth)
  with assms(1) show ?thesis by (simp add: atom_old)
qed

lemma registry_atoms: "registry s ts \<Longrightarrow> registry (atoms s us) (register ts us)"
proof (induction us arbitrary: s ts)
  case Nil
  then show ?case by simp
next
  case (Cons u us)
  obtain row col number where u: "u = (row, col, number)" by (cases u)
  show ?case
  proof (cases "u \<in> set ts")
    case True
    with Cons.prems u have "snd (atom s row col number) = s" by (simp add: atom_member)
    with Cons.IH[OF Cons.prems] True u show ?thesis by simp
  next
    case False
    with Cons.prems u have "registry (snd (atom s row col number)) (ts @ [u])"
      by (simp add: atom_new)
    from Cons.IH[OF this] False u show ?thesis by simp
  qed
qed

lemma register_prefix: "\<exists>vs. register ts us = ts @ vs"
  by (induction us arbitrary: ts) (auto, metis append.assoc)

lemma set_register: "set (register ts us) = set ts \<union> set us"
  by (induction us arbitrary: ts) auto

lemma distinct_register: "distinct ts \<Longrightarrow> distinct (register ts us)"
  by (induction us arbitrary: ts) auto

lemma length_register_empty: "length (register [] ts) = card (set ts)"
  using distinct_card[of "register [] ts"] by (simp add: distinct_register set_register)

lemma registry_reverse:
  assumes "registry s ts" "i < length ts"
  shows "map_of (id_atom s) (int i + 1) = Some (ts ! i)"
proof -
  from assms have b: "id_atom s = zip (ids (length ts)) ts" by (simp add: registry_def)
  have "map_of (zip (ids (length ts)) ts) (ids (length ts) ! i) = Some (ts ! i)"
    using assms(2) by (intro map_of_zip_nth) (simp_all add: distinct_ids)
  with assms(2) show ?thesis by (simp add: b)
qed

lemma atom_positive: "registry s ts \<Longrightarrow> 0 < fst (atom s row col number)"
proof (cases "(row, col, number) \<in> set ts")
  case True
  assume r: "registry s ts"
  from True obtain i where "i < length ts" "ts ! i = (row, col, number)"
    by (auto simp: in_set_conv_nth)
  with r show ?thesis by (simp add: atom_old)
next
  case False
  assume "registry s ts"
  with False show ?thesis by (simp add: atom_new)
qed

text \<open>
  Claim C5. On an object whose registry is empty, as the constructor leaves it, let the
  triples \<open>ts\<close> be asked for in this order (repetitions allowed) and let
  \<open>(row, col, number)\<close> be a triple not among them. Then the first call of \<open>__atom\<close>
  for it returns 1 plus the number of distinct triples registered before it; after any
  further calls \<open>us\<close>, a call with the same triple still returns this identifier; and
  the reverse dictionary maps the identifier back to \<open>(row, col, number)\<close>.
\<close>

theorem atom_first_later_reverse:
  assumes "atom_id s0 = []" and "id_atom s0 = []" and "(row, col, number) \<notin> set ts"
  shows "fst (atom (atoms s0 ts) row col number) = int (card (set ts)) + 1 \<and>
         fst (atom (atoms (snd (atom (atoms s0 ts) row col number)) us) row col number)
           = int (card (set ts)) + 1 \<and>
         map_of (id_atom (atoms (snd (atom (atoms s0 ts) row col number)) us))
           (int (card (set ts)) + 1) = Some (row, col, number)"
proof -
  let ?R = "register [] ts"
  let ?s = "atoms s0 ts"
  let ?s' = "snd (atom ?s row col number)"
  have r: "registry ?s ?R"
    using assms(1,2) by (intro registry_atoms registry_empty)
  have fresh: "(row, col, number) \<notin> set ?R"
    using assms(3) by (simp add: set_register)
  have len: "length ?R = card (set ts)" by (rule length_register_empty)
  have first: "fst (atom ?s row col number) = int (card (set ts)) + 1"
    using atom_new(1)[OF r fresh] len by simp
  have r': "registry ?s' (?R @ [(row, col, number)])"
    by (rule atom_new(2)[OF r fresh])
  let ?T = "register (?R @ [(row, col, number)]) us"
  have r'': "registry (atoms ?s' us) ?T"
    by (rule registry_atoms[OF r'])
  obtain vs where T: "?T = (?R @ [(row, col, number)]) @ vs"
    using register_prefix by blast
  have i: "length ?R < length ?T" and nth: "?T ! length ?R = (row, col, number)"
    by (simp_all add: T nth_append)
  have later: "atom (atoms ?s' us) row col number = (int (length ?R) + 1, atoms ?s' us)"
    by (rule atom_old[OF r'' i nth])
  have rev: "map_of (id_atom (atoms ?s' us)) (int (length ?R) + 1) = Some (?T ! length ?R)"
    by (rule registry_reverse[OF r'' i])
  from first later rev nth len show ?thesis by simp
qed

theorem atom_first_later_reverse_witness:
  "atom_id \<lparr>atom_id = [], id_atom = [], solution = None, solution_found = False\<rparr> = [] \<and>
   id_atom \<lparr>atom_id = [], id_atom = [], solution = None, solution_found = False\<rparr> = [] \<and>
   (0, 1, 3) \<notin> set [(0, 0, 5), (0, 1, 0), (0, 0, 5) :: triple] \<and>
   fst (atom (atoms \<lparr>atom_id = [], id_atom = [], solution = None, solution_found = False\<rparr>
          [(0, 0, 5), (0, 1, 0), (0, 0, 5)]) 0 1 3) = 3 \<and>
   fst (atom (atoms (snd (atom (atoms \<lparr>atom_id = [], id_atom = [], solution = None, solution_found = False\<rparr>
          [(0, 0, 5), (0, 1, 0), (0, 0, 5)]) 0 1 3)) [(0, 0, 5), (1, 1, 1), (0, 1, 3)]) 0 1 3) = 3 \<and>
   map_of (id_atom (atoms (snd (atom (atoms \<lparr>atom_id = [], id_atom = [], solution = None, solution_found = False\<rparr>
          [(0, 0, 5), (0, 1, 0), (0, 0, 5)]) 0 1 3)) [(0, 0, 5), (1, 1, 1), (0, 1, 3)])) 3 = Some (0, 1, 3)"
proof -
  have c: "int (card (set [(0, 0, 5), (0, 1, 0), (0, 0, 5) :: triple])) + 1 = 3"
    by (simp add: card_insert_if)
  have h: "(0, 1, 3) \<notin> set [(0, 0, 5), (0, 1, 0), (0, 0, 5) :: triple]"
    by simp
  show ?thesis
    using atom_first_later_reverse[OF _ _ h,
        of "\<lparr>atom_id = [], id_atom = [], solution = None, solution_found = False\<rparr>"
           "[(0, 0, 5), (1, 1, 1), (0, 1, 3)]"]
    unfolding c by simp
qed

section \<open>The constructor\<close>

text \<open>
  Claim C7. Constructing a Sudoku raises the dimension error (the source's
  \<open>ValueError('Wrong grid size')\<close>) if and only if the grid does not have exactly 9 rows
  or some row does not have exactly 9 entries. The error is the only outcome besides
  success, and it comes from the first statements of the constructor: no object exists
  then, and a constructed object has an empty registry, so nothing was encoded. A grid
  of 9 rows of 9 entries constructs successfully.
\<close>

theorem init_dimensions:
  "init h =
     (if length (given h) \<noteq> 9 \<or> (\<exists>row \<in> set (given h). length row \<noteq> 9)
      then Inl ValueError
      else Inr \<lparr>atom_id = [], id_atom = [], solution = None, solution_found = False\<rparr>)"
  by (auto simp: init_def GRID_LEN_def list_ex_iff)

theorem init_dimensions_witness:
  "init \<lparr>given = replicate 8 (replicate 9 0), objs = []\<rparr> = Inl ValueError \<and>
   length (given \<lparr>given = replicate 8 (replicate 9 0), objs = []\<rparr>) = 8 \<and>
   init \<lparr>given = replicate 9 (replicate 8 0), objs = []\<rparr> = Inl ValueError \<and>
   init \<lparr>given = (replicate 8 0) # replicate 8 (replicate 9 0), objs = []\<rparr> = Inl ValueError \<and>
   init \<lparr>given = replicate 9 (replicate 9 0), objs = []\<rparr>
     = Inr \<lparr>atom_id = [], id_atom = [], solution = None, solution_found = False\<rparr>"
  using init_dimensions[of "\<lparr>given = replicate 8 (replicate 9 0), objs = []\<rparr>"]
    init_dimensions[of "\<lparr>given = replicate 9 (replicate 8 0), objs = []\<rparr>"]
    init_dimensions[of "\<lparr>given = (replicate 8 0) # replicate 8 (replicate 9 0), objs = []\<rparr>"]
    init_dimensions[of "\<lparr>given = replicate 9 (replicate 9 0), objs = []\<rparr>"]
  by (simp add: eval_nat_numeral)

text \<open>
  Claim C10. The constructor checks the dimensions only: every grid of 9 rows of 9
  entries is accepted, whatever the entries are (negative numbers or 10, for example).
\<close>

theorem init_no_range_check:
  assumes "length (given h) = 9" and "\<forall>row \<in> set (given h). length row = 9"
  shows "init h = Inr \<lparr>atom_id = [], id_atom = [], solution = None, solution_found = False\<rparr>"
  using assms by (auto simp: init_def GRID_LEN_def list_ex_iff)

theorem init_no_range_check_witness:
  "length (given \<lparr>given = replicate 9 [- 3, 10, 0, 1, 2, 3, 4, 5, 77], objs = []\<rparr>) = 9 \<and>
   list_all (\<lambda>row. length row = 9)
     (given \<lparr>given = replicate 9 [- 3, 10, 0, 1, 2, 3, 4, 5, 77], objs = []\<rparr>) \<and>
   init \<lparr>given = replicate 9 [- 3, 10, 0, 1, 2, 3, 4, 5, 77], objs = []\<rparr>
     = Inr \<lparr>atom_id = [], id_atom = [], solution = None, solution_found = False\<rparr>"
  using init_no_range_check[of "\<lparr>given = replicate 9 [- 3, 10, 0, 1, 2, 3, 4, 5, 77], objs = []\<rparr>"]
  by (simp add: eval_nat_numeral)

section \<open>The constraint checker\<close>


















section \<open>The backtracking search\<close>

























lemma ext_refl: "ext h h"
  by (simp add: ext_def)

lemma ext_trans: "ext h1 h2 \<Longrightarrow> ext h2 h3 \<Longrightarrow> ext h1 h3"
  by (auto simp: ext_def)



lemma all_cells_eq: "all_cells = map (\<lambda>k. (k div 9, k mod 9)) [0..<81]"
  by code_simp

lemma distinct_all_cells: "distinct all_cells"
  unfolding all_cells_eq by (auto simp: distinct_map inj_on_def) (metis div_mult_mod_eq)




lemma cells_from_subset: "set (cells_from row col) \<subseteq> set all_cells"
  unfolding cells_from_def by (rule set_drop_subset)

lemma distinct_cells_from: "distinct (cells_from row col)"
  unfolding cells_from_def using distinct_all_cells by (rule distinct_drop)















section \<open>The given grid is never written\<close>

lemma write_cell_ext:
  assumes "write_cell (fst (deepcopy h g)) (snd (deepcopy h g)) row col n = Inr h2"
  shows "ext h h2"
  using assms
  by (auto simp: deepcopy_def write_cell_def ext_def split: sum.splits)

lemma csp_search_csp_numbers_ext:
  "csp_search hs g row col = Inr hs' \<Longrightarrow> ext (fst hs) (fst hs')"
  "csp_numbers hs g row col ns = Inr hs' \<Longrightarrow> ext (fst hs) (fst hs')"
proof (induction hs g row col and hs g row col ns arbitrary: hs' and hs'
    rule: csp_search_csp_numbers.induct)
  case (1 h s g row col)
  note pr = "1.prems"[unfolded csp_search.simps[of h s g row col]]
  show ?case
  proof (cases "solution_found s")
    case True
    with pr show ?thesis by (auto simp: ext_refl simp del: csp_search.simps)
  next
    case nf: False
    show ?thesis
    proof (cases "check_constraints (load h g)")
      case (Inl e)
      with pr nf show ?thesis by (simp del: csp_search.simps)
    next
      case ck: (Inr ok)
      show ?thesis
      proof (cases "ok \<and> row \<noteq> GRID_LEN")
        case False
        with pr nf ck show ?thesis
          by (auto simp: ext_refl simp del: csp_search.simps split: if_splits)
      next
        case True
        show ?thesis
        proof (cases "grid_get (given h) row col")
          case (Inl e)
          with pr nf ck True show ?thesis by (simp del: csp_search.simps)
        next
          case v: (Inr v)
          consider "v \<noteq> 0" "col = GRID_LEN - 1" | "v \<noteq> 0" "col \<noteq> GRID_LEN - 1" | "v = 0"
            by blast
          then show ?thesis
          proof cases
            case 1
            with pr nf ck True v have "csp_search (h, s) g (row + 1) 0 = Inr hs'"
              by (simp del: csp_search.simps)
            from "1.IH"(1)[OF nf ck _ _ v 1 this] True show ?thesis by simp
          next
            case 2
            with pr nf ck True v have "csp_search (h, s) g row (col + 1) = Inr hs'"
              by (simp del: csp_search.simps)
            from "1.IH"(2)[OF nf ck _ _ v 2 this] True show ?thesis by simp
          next
            case 3
            with pr nf ck True v
            have "csp_numbers (h, s) g row col [1..int MAX_NUMBER] = Inr hs'"
              by (simp del: csp_search.simps csp_numbers.simps)
            from "1.IH"(3)[OF nf ck _ _ v _ this] True 3 show ?thesis by simp
          qed
        qed
      qed
    qed
  qed
next
  case (2 h s g row col)
  then show ?case by (auto simp: ext_refl)
next
  case (3 h s g row col number numbers)
  note pr = "3.prems"[unfolded csp_numbers.simps(2)[of h s g row col number numbers]]
  obtain h1 c where dc: "deepcopy h g = (h1, c)" by (cases "deepcopy h g")
  from pr dc obtain h2 where w: "write_cell h1 c row col number = Inr h2"
    by (auto simp del: csp_search.simps csp_numbers.simps split: sum.splits)
  from w dc write_cell_ext[of h g row col number h2] have e2: "ext h h2" by simp
  from pr dc w obtain hs1 where
    r: "(if col = GRID_LEN - 1 then csp_search (h2, s) c (row + 1) 0
         else csp_search (h2, s) c row (col + 1)) = Inr hs1"
    and n: "csp_numbers hs1 g row col numbers = Inr hs'"
    by (auto simp del: csp_search.simps csp_numbers.simps split: sum.splits)
  have e3: "ext h2 (fst hs1)"
  proof (cases "col = GRID_LEN - 1")
    case True
    with r have "csp_search (h2, s) c (row + 1) 0 = Inr hs1"
      by (simp del: csp_search.simps)
    from "3.IH"(1)[OF dc[symmetric] w True this] show ?thesis by simp
  next
    case False
    with r have "csp_search (h2, s) c row (col + 1) = Inr hs1"
      by (simp del: csp_search.simps)
    from "3.IH"(2)[OF dc[symmetric] w False this] show ?thesis by simp
  qed
  from "3.IH"(3)[OF dc[symmetric] w r n] have "ext (fst hs1) (fst hs')" .
  with e2 e3 show ?case by (auto intro: ext_trans)
qed

lemma decode_ext:
  "decode model s (Obj k) h = Inr h' \<Longrightarrow>
     given h' = given h \<and> length (objs h') = length (objs h) \<and>
     (\<forall>j. j \<noteq> k \<longrightarrow> objs h' ! j = objs h ! j)"
proof (induction model arbitrary: h)
  case Nil
  then show ?case by simp
next
  case (Cons v model)
  show ?case
  proof (cases "v > 0")
    case False
    with Cons show ?thesis by simp
  next
    case True
    with Cons.prems obtain row col number h1 where
      w: "write_cell h (Obj k) row col number = Inr h1" and d: "decode model s (Obj k) h1 = Inr h'"
      by (auto split: option.splits sum.splits)
    from w have "given h1 = given h \<and> length (objs h1) = length (objs h) \<and>
        (\<forall>j. j \<noteq> k \<longrightarrow> objs h1 ! j = objs h ! j)"
      by (auto simp: write_cell_def split: sum.splits)
    with Cons.IH[OF d] show ?thesis by simp
  qed
qed

text \<open>
  Claim C6. Neither \<open>solve_as_sat\<close> nor \<open>solve_as_csp\<close> mutates the given grid:
  whenever either call returns, the grid object supplied at construction holds the
  entries it held before the call, and so does every other grid object that existed
  before. This includes the search that starts on the given grid object itself
  (\<open>solve_as_csp\<close> passes the reference \<open>Given\<close> as the first candidate): the only
  writes go to objects made by \<open>copy.deepcopy\<close>. It holds for every oracle.
\<close>

theorem solve_keeps_given:
  "(solve_as_csp (h, s) = Inr (r, h', s') \<longrightarrow>
      given h' = given h \<and> take (length (objs h)) (objs h') = objs h) \<and>
   (solve_as_sat oracle (h, s) = Inr (r2, h2, s2) \<longrightarrow>
      given h2 = given h \<and> take (length (objs h)) (objs h2) = objs h)"
proof (intro conjI impI)
  assume a: "solve_as_csp (h, s) = Inr (r, h', s')"
  then have "csp_search (h, s\<lparr>solution := None, solution_found := False\<rparr>) Given 0 0 = Inr (h', s')"
    by (auto simp: solve_as_csp_def simp del: csp_search.simps split: sum.splits)
  from csp_search_csp_numbers_ext(1)[OF this] have e: "ext h h'" by simp
  then show "given h' = given h" "take (length (objs h)) (objs h') = objs h"
    by (auto simp: ext_def)
next
  assume a: "solve_as_sat oracle (h, s) = Inr (r2, h2, s2)"
  have "given h2 = given h \<and> take (length (objs h)) (objs h2) = objs h"
  proof (cases "encode h (s\<lparr>solution := None, solution_found := False\<rparr>)")
    case (Inl e)
    with a show ?thesis by (simp add: solve_as_sat_def)
  next
    case (Inr cs)
    obtain clauses s1 where cs: "cs = (clauses, s1)" by (cases cs)
    show ?thesis
    proof (cases "oracle clauses")
      case None
      with a Inr cs show ?thesis by (simp add: solve_as_sat_def)
    next
      case (Some model)
      let ?s3 = "s1\<lparr>solution_found := True, solution := Some (Obj (length (objs h)))\<rparr>"
      from a Inr cs Some have
        d: "decode model ?s3 (Obj (length (objs h))) (h\<lparr>objs := objs h @ [given h]\<rparr>) = Inr h2"
        by (auto simp: solve_as_sat_def deepcopy_def split: sum.splits)
      from decode_ext[OF d] have g: "given h2 = given h"
        and l: "length (objs h2) = Suc (length (objs h))"
        and o: "\<forall>j. j \<noteq> length (objs h) \<longrightarrow> objs h2 ! j = (objs h @ [given h]) ! j"
        by simp_all
      have "take (length (objs h)) (objs h2) = objs h"
        using l o by (intro nth_equalityI) (auto simp: nth_append)
      with g show ?thesis ..
    qed
  qed
  then show "given h2 = given h" "take (length (objs h)) (objs h2) = objs h" by simp_all
qed

end
